theory Spec2Isabelle
  imports Complex_Main "HOL-Library.Log_Nat"
begin

section \<open>Python floats\<close>

text \<open>
  The arguments and results of \<^verbatim>\<open>calc_hourwages\<close> are Python floats: IEEE 754
  binary64 values. A finite float is modelled by the rational number it denotes, the two
  infinities and NaN are constructors of their own. The sign of zero is not kept:
  \<^verbatim>\<open>-0.0\<close> and \<^verbatim>\<open>0.0\<close> (equal under Python's \<^verbatim>\<open>==\<close>) are both
  \<open>Fin 0\<close>. Nothing in \<^verbatim>\<open>lib.py\<close> branches on the sign of a zero.
\<close>

datatype pyfloat = Fin rat | PInf | NInf | NaN

text \<open>
  \<open>ilog2 q\<close> is the binary exponent of a positive rational: the \<open>e\<close> with
  \<open>2\<^sup>e \<le> q < 2\<^sup>e\<^sup>+\<^sup>1\<close>.
\<close>

definition ilog2 :: "rat \<Rightarrow> int" where
  "ilog2 q = (if 1 \<le> q then bitlen \<lfloor>q\<rfloor> - 1 else - bitlen (\<lceil>1 / q\<rceil> - 1))"

definition round_half_even :: "rat \<Rightarrow> int" where
  "round_half_even x =
     (let f = \<lfloor>x\<rfloor>; d = x - of_int f
      in if d < 1 / 2 then f else if 1 / 2 < d then f + 1 else if even f then f else f + 1)"

text \<open>
  \<open>fl q\<close> is the binary64 value nearest to \<open>q\<close>, ties to the even significand: 53
  significant bits for a normal number, a fixed unit of \<open>2\<^sup>-\<^sup>1\<^sup>0\<^sup>7\<^sup>4\<close> below
  \<open>2\<^sup>-\<^sup>1\<^sup>0\<^sup>2\<^sup>2\<close>, and an infinity when the rounded value reaches \<open>2\<^sup>1\<^sup>0\<^sup>2\<^sup>4\<close>
  (\<open>9007199254740992 = 2\<^sup>5\<^sup>3\<close>).
\<close>

definition fl :: "rat \<Rightarrow> pyfloat" where
  "fl q =
     (if q = 0 then Fin 0
      else let e = max (ilog2 \<bar>q\<bar>) (- 1022);
               m = round_half_even (q / 2 powi (e - 52))
           in if 1023 < e \<or> (e = 1023 \<and> 9007199254740992 \<le> \<bar>m\<bar>)
              then (if 0 < q then PInf else NInf)
              else Fin (of_int m * 2 powi (e - 52)))"

text \<open>A value of the model is a float when rounding leaves it alone.\<close>

definition is_double :: "pyfloat \<Rightarrow> bool" where
  "is_double x = (case x of Fin q \<Rightarrow> fl q = Fin q | _ \<Rightarrow> True)"

datatype py_error = ValueError | ZeroDivisionError | OverflowError | IntegrityError | OperationalError

fun float_neg :: "pyfloat \<Rightarrow> pyfloat" where
  "float_neg (Fin a) = Fin (- a)"
| "float_neg PInf = NInf"
| "float_neg NInf = PInf"
| "float_neg NaN = NaN"

fun float_add :: "pyfloat \<Rightarrow> pyfloat \<Rightarrow> pyfloat" where
  "float_add (Fin a) (Fin b) = fl (a + b)"
| "float_add NaN _ = NaN"
| "float_add _ NaN = NaN"
| "float_add PInf NInf = NaN"
| "float_add NInf PInf = NaN"
| "float_add PInf _ = PInf"
| "float_add _ PInf = PInf"
| "float_add NInf _ = NInf"
| "float_add _ NInf = NInf"

definition float_sub :: "pyfloat \<Rightarrow> pyfloat \<Rightarrow> pyfloat" where
  "float_sub a b = float_add a (float_neg b)"

fun float_mul :: "pyfloat \<Rightarrow> pyfloat \<Rightarrow> pyfloat" where
  "float_mul (Fin a) (Fin b) = fl (a * b)"
| "float_mul NaN _ = NaN"
| "float_mul _ NaN = NaN"
| "float_mul (Fin a) PInf = (if a = 0 then NaN else if 0 < a then PInf else NInf)"
| "float_mul (Fin a) NInf = (if a = 0 then NaN else if 0 < a then NInf else PInf)"
| "float_mul PInf (Fin b) = (if b = 0 then NaN else if 0 < b then PInf else NInf)"
| "float_mul NInf (Fin b) = (if b = 0 then NaN else if 0 < b then NInf else PInf)"
| "float_mul PInf PInf = PInf"
| "float_mul PInf NInf = NInf"
| "float_mul NInf PInf = NInf"
| "float_mul NInf NInf = PInf"

text \<open>
  IEEE division for a divisor other than zero. Python never divides a float by zero (see
  \<open>float_truediv\<close>), so the value given here for a zero divisor is never used.
\<close>

fun float_div :: "pyfloat \<Rightarrow> pyfloat \<Rightarrow> pyfloat" where
  "float_div (Fin a) (Fin b) = (if b = 0 then NaN else fl (a / b))"
| "float_div NaN _ = NaN"
| "float_div _ NaN = NaN"
| "float_div (Fin a) PInf = Fin 0"
| "float_div (Fin a) NInf = Fin 0"
| "float_div PInf (Fin b) = (if 0 \<le> b then PInf else NInf)"
| "float_div NInf (Fin b) = (if 0 \<le> b then NInf else PInf)"
| "float_div PInf PInf = NaN"
| "float_div PInf NInf = NaN"
| "float_div NInf PInf = NaN"
| "float_div NInf NInf = NaN"

text \<open>The comparisons of a float with an \<^verbatim>\<open>int\<close>; every comparison with NaN is false.\<close>

fun float_le_int :: "pyfloat \<Rightarrow> int \<Rightarrow> bool" where
  "float_le_int (Fin a) i = (a \<le> of_int i)"
| "float_le_int NInf i = True"
| "float_le_int PInf i = False"
| "float_le_int NaN i = False"

fun float_gt_int :: "pyfloat \<Rightarrow> int \<Rightarrow> bool" where
  "float_gt_int (Fin a) i = (of_int i < a)"
| "float_gt_int PInf i = True"
| "float_gt_int NInf i = False"
| "float_gt_int NaN i = False"

fun float_eq_int :: "pyfloat \<Rightarrow> int \<Rightarrow> bool" where
  "float_eq_int (Fin a) i = (a = of_int i)"
| "float_eq_int _ i = False"

text \<open>\<^verbatim>\<open>a / b\<close> on floats raises \<^verbatim>\<open>ZeroDivisionError\<close> when \<^verbatim>\<open>b == 0\<close>.\<close>

definition float_truediv :: "pyfloat \<Rightarrow> pyfloat \<Rightarrow> py_error + pyfloat" where
  "float_truediv a b = (if float_eq_int b 0 then Inl ZeroDivisionError else Inr (float_div a b))"

text \<open>
  An \<^verbatim>\<open>int\<close> operand of mixed arithmetic is converted to the nearest float;
  the conversion raises \<^verbatim>\<open>OverflowError\<close> ("int too large to convert to float")
  when that float would be infinite.
\<close>

definition float_of_int :: "int \<Rightarrow> py_error + pyfloat" where
  "float_of_int i = (case fl (of_int i) of Fin r \<Rightarrow> Inr (Fin r) | _ \<Rightarrow> Inl OverflowError)"

definition int_mul_float :: "int \<Rightarrow> pyfloat \<Rightarrow> py_error + pyfloat" where
  "int_mul_float i x = (case float_of_int i of Inl e \<Rightarrow> Inl e | Inr f \<Rightarrow> Inr (float_mul f x))"

text \<open>
  \<^verbatim>\<open>round(x, 2)\<close>: the exact value of \<open>x\<close> rounded to two decimals, ties to the
  even digit, and the float nearest to that decimal. Infinities and NaN round to themselves.
\<close>

fun py_round2 :: "pyfloat \<Rightarrow> pyfloat" where
  "py_round2 (Fin a) = fl (of_int (round_half_even (a * 100)) / 100)"
| "py_round2 x = x"

section \<open>The pricing engine\<close>

type_synonym rates = "pyfloat \<times> pyfloat \<times> pyfloat \<times> pyfloat \<times> pyfloat"

text \<open>
  The body of the \<^verbatim>\<open>try\<close> block of \<^verbatim>\<open>calc_hourwages\<close>. The literals
  \<^verbatim>\<open>1\<close>, \<^verbatim>\<open>0.0\<close> and \<^verbatim>\<open>0.6\<close> are \<open>Fin 1\<close>, \<open>Fin 0\<close> and
  \<open>fl (6 / 10)\<close>.
\<close>

definition calc_hourwages_try ::
  "int \<Rightarrow> pyfloat \<Rightarrow> pyfloat \<Rightarrow> pyfloat \<Rightarrow> pyfloat \<Rightarrow> pyfloat \<Rightarrow> bool \<Rightarrow> py_error + rates" where
  "calc_hourwages_try worker_amount individual_costs overhead_costs hours earning_percentage
       vat_percentage geld_f_chefchen =
     (if worker_amount \<le> 0 then Inl ValueError
      else if float_le_int hours 0 then Inl ValueError
      else
        (case int_mul_float worker_amount individual_costs of
           Inl e \<Rightarrow> Inl e
         | Inr gesamt_einzelkosten \<Rightarrow>
            (let selbstkosten = float_add gesamt_einzelkosten overhead_costs
             in (case int_mul_float worker_amount hours of
                   Inl e \<Rightarrow> Inl e
                 | Inr verrechenbare_stunden \<Rightarrow>
                    (if float_eq_int verrechenbare_stunden 0 then Inl ValueError
                     else
                       (case float_truediv selbstkosten verrechenbare_stunden of
                          Inl e \<Rightarrow> Inl e
                        | Inr selbstkostensatz \<Rightarrow>
                           (let netto =
                                  float_mul selbstkostensatz
                                    (float_add (Fin 1) earning_percentage);
                                brutto = float_mul netto (float_add (Fin 1) vat_percentage);
                                netto_selbstkosten_diff = float_sub netto selbstkostensatz;
                                chef_kondensat =
                                  (if geld_f_chefchen
                                   then float_mul netto_selbstkosten_diff
                                          (float_mul (fl (6 / 10)) earning_percentage)
                                   else Fin 0);
                                netto_selbstkosten_diff' =
                                  (if geld_f_chefchen
                                   then float_sub netto_selbstkosten_diff chef_kondensat
                                   else netto_selbstkosten_diff);
                                brutto' =
                                  (if geld_f_chefchen then float_sub brutto chef_kondensat
                                   else brutto)
                            in Inr (py_round2 selbstkostensatz, py_round2 netto,
                                    py_round2 brutto', py_round2 netto_selbstkosten_diff',
                                    py_round2 chef_kondensat))))))))"

text \<open>
  \<^verbatim>\<open>calc_hourwages\<close>: the \<^verbatim>\<open>except Exception\<close> handler prints the error and
  returns five zeros.
\<close>

definition calc_hourwages ::
  "int \<Rightarrow> pyfloat \<Rightarrow> pyfloat \<Rightarrow> pyfloat \<Rightarrow> pyfloat \<Rightarrow> pyfloat \<Rightarrow> bool \<Rightarrow> rates" where
  "calc_hourwages worker_amount individual_costs overhead_costs hours earning_percentage
       vat_percentage geld_f_chefchen =
     (case calc_hourwages_try worker_amount individual_costs overhead_costs hours
             earning_percentage vat_percentage geld_f_chefchen of
        Inl e \<Rightarrow> (Fin 0, Fin 0, Fin 0, Fin 0, Fin 0)
      | Inr r \<Rightarrow> r)"

section \<open>The scenario store\<close>

text \<open>
  One row of the table \<^verbatim>\<open>scenarios\<close> created by \<^verbatim>\<open>init_db\<close>; the fields are
  its columns. The flag \<^verbatim>\<open>chef\<close> of \<^verbatim>\<open>save_scenario\<close> has no column.
  \<open>sc_created_at\<close> is the value of \<^verbatim>\<open>CURRENT_TIMESTAMP\<close> at the insert, in
  whole seconds.
\<close>

record scenario =
  sc_id :: int
  sc_name :: string
  sc_description :: string
  sc_worker_amount :: int
  sc_individual_costs :: pyfloat
  sc_overhead_costs :: pyfloat
  sc_hours :: pyfloat
  sc_earning_percentage :: pyfloat
  sc_vat_percentage :: pyfloat
  sc_selbstkostensatz :: pyfloat
  sc_netto :: pyfloat
  sc_brutto :: pyfloat
  sc_netto_selbstkosten_diff :: pyfloat
  sc_geld_fuer_chefchen :: pyfloat
  sc_created_at :: int

text \<open>
  The database file: the rows of the table in rowid order, and the counter that
  \<^verbatim>\<open>AUTOINCREMENT\<close> keeps (the largest rowid ever handed out).
\<close>

record database =
  scenarios :: "scenario list"
  sqlite_sequence :: int

text \<open>The table right after \<^verbatim>\<open>init_db\<close> has created it.\<close>

definition empty_db :: database where
  "empty_db = \<lparr>scenarios = [], sqlite_sequence = 0\<rparr>"

definition is_int64 :: "int \<Rightarrow> bool" where
  "is_int64 i = (- 9223372036854775808 \<le> i \<and> i \<le> 9223372036854775807)"

text \<open>
  The \<^verbatim>\<open>INSERT\<close> with its \<^verbatim>\<open>commit\<close>. It raises, and leaves the table as it
  was, when \<^verbatim>\<open>sqlite3\<close> fails for a reason of its own (\<open>fault\<close>: the file cannot be
  opened, the table is missing, the disk is full), when \<^verbatim>\<open>worker_amount\<close> does not fit
  a 64-bit \<^verbatim>\<open>INTEGER\<close>, when a float is NaN (bound as \<^verbatim>\<open>NULL\<close>, which every
  \<^verbatim>\<open>REAL NOT NULL\<close> column rejects), or when the rowids are used up.
\<close>

definition sqlite_insert :: "bool \<Rightarrow> scenario \<Rightarrow> database \<Rightarrow> py_error + database" where
  "sqlite_insert fault row db =
     (if fault then Inl OperationalError
      else if \<not> is_int64 (sc_worker_amount row) then Inl OverflowError
      else if NaN \<in> set [sc_individual_costs row, sc_overhead_costs row, sc_hours row,
                          sc_earning_percentage row, sc_vat_percentage row,
                          sc_selbstkostensatz row, sc_netto row, sc_brutto row,
                          sc_netto_selbstkosten_diff row, sc_geld_fuer_chefchen row]
           then Inl IntegrityError
      else if \<not> is_int64 (sc_id row) then Inl OperationalError
      else Inr \<lparr>scenarios = scenarios db @ [row], sqlite_sequence = sc_id row\<rparr>)"

text \<open>
  \<^verbatim>\<open>save_scenario\<close>. Besides the arguments of the source (the defaults of
  \<^verbatim>\<open>description\<close> and \<^verbatim>\<open>chef\<close> are the caller's to fill in) it takes what the
  call reads from its environment: the clock \<open>now\<close>, whether \<^verbatim>\<open>sqlite3\<close> fails, and
  the database. The new row gets the rowid that \<^verbatim>\<open>AUTOINCREMENT\<close> assigns, the counter
  plus one. The function returns \<^verbatim>\<open>cursor.lastrowid\<close>, or \<open>-1\<close> from the
  \<^verbatim>\<open>except\<close> handler, with the database after the call.
\<close>

definition save_scenario ::
  "string \<Rightarrow> int \<Rightarrow> pyfloat \<Rightarrow> pyfloat \<Rightarrow> pyfloat \<Rightarrow> pyfloat \<Rightarrow> pyfloat \<Rightarrow> string \<Rightarrow> bool \<Rightarrow>
   int \<Rightarrow> bool \<Rightarrow> database \<Rightarrow> int \<times> database" where
  "save_scenario name worker_amount individual_costs overhead_costs hours earning_percentage
       vat_percentage description chef now fault db =
     (case calc_hourwages worker_amount individual_costs overhead_costs hours
             earning_percentage vat_percentage chef of
        (selbstkostensatz, netto, brutto, netto_selbstkosten_diff, chef_kondensat) \<Rightarrow>
          (case sqlite_insert fault
                  \<lparr>sc_id = sqlite_sequence db + 1, sc_name = name,
                   sc_description = description, sc_worker_amount = worker_amount,
                   sc_individual_costs = individual_costs, sc_overhead_costs = overhead_costs,
                   sc_hours = hours, sc_earning_percentage = earning_percentage,
                   sc_vat_percentage = vat_percentage, sc_selbstkostensatz = selbstkostensatz,
                   sc_netto = netto, sc_brutto = brutto,
                   sc_netto_selbstkosten_diff = netto_selbstkosten_diff,
                   sc_geld_fuer_chefchen = chef_kondensat, sc_created_at = now\<rparr> db of
             Inl e \<Rightarrow> (- 1, db)
           | Inr db' \<Rightarrow> (sqlite_sequence db', db')))"

text \<open>
  \<^verbatim>\<open>SELECT * FROM scenarios ORDER BY created_at DESC\<close>: SQLite sorts the rows, read in
  rowid order, by the key and leaves rows with equal keys in the order it read them.
  On an exception the function returns the empty list.
\<close>

definition get_all_scenarios :: "bool \<Rightarrow> database \<Rightarrow> scenario list" where
  "get_all_scenarios fault db =
     (if fault then [] else sort_key (\<lambda>r. - sc_created_at r) (scenarios db))"


text \<open>
  \<^verbatim>\<open>delete_scenario\<close> returns \<^verbatim>\<open>cursor.rowcount > 0\<close>, or \<^verbatim>\<open>False\<close> from
  the \<^verbatim>\<open>except\<close> handler, with the database after the call.
\<close>

definition delete_scenario :: "bool \<Rightarrow> database \<Rightarrow> int \<Rightarrow> bool \<times> database" where
  "delete_scenario fault db scenario_id =
     (if fault then (False, db)
      else (0 < length (filter (\<lambda>r. sc_id r = scenario_id) (scenarios db)),
            db\<lparr>scenarios := filter (\<lambda>r. sc_id r \<noteq> scenario_id) (scenarios db)\<rparr>))"

text \<open>
  The calls that can change the database, with their arguments, and the database after a
  sequence of them. \<^verbatim>\<open>get_all_scenarios\<close> and \<^verbatim>\<open>get_scenario\<close> only read.
\<close>

datatype store_op =
  Save string int pyfloat pyfloat pyfloat pyfloat pyfloat string bool int bool
| Delete bool int

fun apply_op :: "store_op \<Rightarrow> database \<Rightarrow> database" where
  "apply_op (Save name worker_amount individual_costs overhead_costs hours earning_percentage
       vat_percentage description chef now fault) db =
     snd (save_scenario name worker_amount individual_costs overhead_costs hours
            earning_percentage vat_percentage description chef now fault db)"
| "apply_op (Delete fault scenario_id) db = snd (delete_scenario fault db scenario_id)"

fun run_ops :: "store_op list \<Rightarrow> database \<Rightarrow> database" where
  "run_ops [] db = db"
| "run_ops (x # xs) db = run_ops xs (apply_op x db)"

text \<open>The input columns and the result columns of a row.\<close>

definition stored_inputs ::
  "scenario \<Rightarrow> int \<times> pyfloat \<times> pyfloat \<times> pyfloat \<times> pyfloat \<times> pyfloat" where
  "stored_inputs r =
     (sc_worker_amount r, sc_individual_costs r, sc_overhead_costs r, sc_hours r,
      sc_earning_percentage r, sc_vat_percentage r)"

definition stored_results :: "scenario \<Rightarrow> rates" where
  "stored_results r =
     (sc_selbstkostensatz r, sc_netto r, sc_brutto r, sc_netto_selbstkosten_diff r,
      sc_geld_fuer_chefchen r)"


section \<open>The rates as the specification states them\<close>

text \<open>
  The steps of the specification's algorithm, before any rounding to two decimals, in the
  arithmetic of the floats: the worker count is converted to a float, every operation
  rounds to the nearest float.
\<close>

definition spec_self_cost_rate :: "int \<Rightarrow> pyfloat \<Rightarrow> pyfloat \<Rightarrow> pyfloat \<Rightarrow> pyfloat" where
  "spec_self_cost_rate worker_count cost_per_worker overhead_cost billable_hours_per_worker =
     float_div
       (float_add (float_mul (fl (of_int worker_count)) cost_per_worker) overhead_cost)
       (float_mul (fl (of_int worker_count)) billable_hours_per_worker)"

definition spec_net_rate :: "pyfloat \<Rightarrow> pyfloat \<Rightarrow> pyfloat" where
  "spec_net_rate self_cost_rate margin_fraction =
     float_mul self_cost_rate (float_add (Fin 1) margin_fraction)"

definition spec_gross_rate :: "pyfloat \<Rightarrow> pyfloat \<Rightarrow> pyfloat" where
  "spec_gross_rate net_rate vat_fraction = float_mul net_rate (float_add (Fin 1) vat_fraction)"

definition spec_redistribution_amount :: "pyfloat \<Rightarrow> pyfloat \<Rightarrow> pyfloat" where
  "spec_redistribution_amount diff margin_fraction =
     float_mul diff (float_mul (fl (6 / 10)) margin_fraction)"

section \<open>Facts about rounding\<close>

lemma ilog2_ge1:
  assumes "1 \<le> q"
  shows "2 powi (ilog2 q) \<le> q \<and> q < 2 powi (ilog2 q + 1)"
proof -
  define n where "n = \<lfloor>q\<rfloor>"
  have n1: "1 \<le> n" using assms by (simp add: n_def le_floor_iff)
  then have n0: "0 < n" by simp
  have bl: "1 \<le> bitlen n" using n0 by (simp add: bitlen_alt_def)
  from bitlen_bounds[OF n0] have lo: "2 ^ nat (bitlen n - 1) \<le> n" and hi: "n < 2 ^ nat (bitlen n)"
    by auto
  have e: "ilog2 q = bitlen n - 1" using assms by (simp add: ilog2_def n_def)
  have "(2::rat) powi (bitlen n - 1) = 2 ^ nat (bitlen n - 1)"
    using bl by (simp add: power_int_def)
  also have "\<dots> = of_int (2 ^ nat (bitlen n - 1))" by simp
  also have "\<dots> \<le> of_int n" using lo by (simp only: of_int_le_iff)
  also have "\<dots> \<le> q" by (simp add: n_def)
  finally have A: "2 powi (ilog2 q) \<le> q" by (simp add: e)
  have "n + 1 \<le> 2 ^ nat (bitlen n)" using hi by simp
  then have "(of_int (n + 1) :: rat) \<le> of_int (2 ^ nat (bitlen n))" by (simp only: of_int_le_iff)
  moreover have "q < of_int (n + 1)" unfolding n_def by linarith
  ultimately have "q < of_int (2 ^ nat (bitlen n))" by linarith
  also have "\<dots> = 2 powi (bitlen n)" using bl by (simp add: power_int_def)
  finally have B: "q < 2 powi (ilog2 q + 1)" by (simp add: e)
  from A B show ?thesis by simp
qed

lemma ilog2_lt1:
  assumes "0 < q" "q < 1"
  shows "2 powi (ilog2 q) \<le> q \<and> q < 2 powi (ilog2 q + 1)"
proof -
  define t where "t = 1 / q"
  define n where "n = \<lceil>t\<rceil>"
  have t1: "1 < t" using assms by (simp add: t_def)
  have tn: "t \<le> of_int n" by (simp add: n_def)
  have nt: "of_int (n - 1) < t" unfolding n_def by linarith
  have n2: "2 \<le> n" using t1 unfolding n_def by linarith
  then have n0: "0 < n - 1" by simp
  define k where "k = bitlen (n - 1)"
  have bl: "1 \<le> k" using n0 by (simp add: bitlen_alt_def k_def)
  from bitlen_bounds[OF n0] have lo: "2 ^ nat (k - 1) \<le> n - 1" and hi: "n - 1 < 2 ^ nat k"
    by (auto simp: k_def)
  have e: "ilog2 q = - k" using assms by (simp add: ilog2_def n_def t_def k_def)
  have "n \<le> 2 ^ nat k" using hi by simp
  then have "(of_int n :: rat) \<le> of_int (2 ^ nat k)" by (simp only: of_int_le_iff)
  then have "(of_int n :: rat) \<le> 2 ^ nat k" by simp
  then have "t \<le> 2 ^ nat k" using tn by (rule order_trans[rotated])
  then have "1 / q \<le> 2 ^ nat k" by (simp add: t_def)
  then have "1 \<le> 2 ^ nat k * q" using assms(1) by (simp add: field_simps)
  then have "1 / 2 ^ nat k \<le> q" by (simp add: field_simps)
  moreover have "(2::rat) powi (- k) = 1 / 2 ^ nat k"
    using bl by (simp add: power_int_def field_simps)
  ultimately have A: "2 powi (ilog2 q) \<le> q" by (simp add: e)
  have "(of_int (2 ^ nat (k - 1)) :: rat) \<le> of_int (n - 1)" using lo by (simp only: of_int_le_iff)
  then have "(2 ^ nat (k - 1) :: rat) \<le> of_int (n - 1)" by simp
  then have "2 ^ nat (k - 1) < t" using nt by (rule le_less_trans)
  then have "2 ^ nat (k - 1) < 1 / q" by (simp add: t_def)
  then have "2 ^ nat (k - 1) * q < 1" using assms(1) by (simp add: field_simps)
  then have "q < 1 / 2 ^ nat (k - 1)" by (simp add: field_simps)
  moreover have "(2::rat) powi (- k + 1) = 1 / 2 ^ nat (k - 1)"
  proof (cases "k = 1")
    case True
    then show ?thesis by simp
  next
    case False
    then have "- k + 1 < 0" using bl by simp
    then show ?thesis by (simp add: power_int_def field_simps nat_diff_distrib)
  qed
  ultimately have B: "q < 2 powi (ilog2 q + 1)" by (simp add: e)
  from A B show ?thesis by simp
qed

lemma ilog2_bounds: "0 < q \<Longrightarrow> 2 powi (ilog2 q) \<le> q \<and> q < 2 powi (ilog2 q + 1)"
  using ilog2_ge1 ilog2_lt1 by (cases "1 \<le> q") auto


lemma round_half_even_ge: "of_int n \<le> x \<Longrightarrow> n \<le> round_half_even x"
proof -
  assume "of_int n \<le> x"
  then have "n \<le> \<lfloor>x\<rfloor>" by (simp add: le_floor_iff)
  then show ?thesis by (simp add: round_half_even_def Let_def)
qed

lemma round_half_even_below_half:
  assumes "x < of_int n - 1 / 2"
  shows "round_half_even x \<le> n - 1"
proof -
  have "x < of_int n" using assms by linarith
  then have f: "\<lfloor>x\<rfloor> \<le> n - 1" by (simp add: floor_less_iff)
  show ?thesis
  proof (cases "\<lfloor>x\<rfloor> = n - 1")
    case True
    then have "x - of_int \<lfloor>x\<rfloor> < 1 / 2" using assms by simp
    then show ?thesis using True by (simp add: round_half_even_def Let_def)
  next
    case False
    then have "\<lfloor>x\<rfloor> + 1 \<le> n - 1" using f by linarith
    then show ?thesis by (simp add: round_half_even_def Let_def)
  qed
qed

lemma ilog2_ge:
  assumes "0 < q" "2 powi k \<le> q"
  shows "k \<le> ilog2 q"
proof (rule ccontr)
  assume "\<not> k \<le> ilog2 q"
  then have "ilog2 q + 1 \<le> k" by simp
  then have "(2::rat) powi (ilog2 q + 1) \<le> 2 powi k" by (intro power_int_increasing) auto
  moreover have "q < 2 powi (ilog2 q + 1)" using ilog2_bounds[OF assms(1)] by simp
  ultimately show False using assms(2) by linarith
qed

lemma ilog2_lt:
  assumes "0 < q" "q < 2 powi k"
  shows "ilog2 q < k"
proof (rule ccontr)
  assume "\<not> ilog2 q < k"
  then have "k \<le> ilog2 q" by simp
  then have "(2::rat) powi k \<le> 2 powi (ilog2 q)" by (intro power_int_increasing) auto
  moreover have "2 powi (ilog2 q) \<le> q" using ilog2_bounds[OF assms(1)] by simp
  ultimately show False using assms(2) by linarith
qed

lemma fl_pos_unfold:
  assumes "0 < q"
  shows "fl q =
     (let e = max (ilog2 q) (- 1022);
          m = round_half_even (q / 2 powi (e - 52))
      in if 1023 < e \<or> (e = 1023 \<and> 9007199254740992 \<le> \<bar>m\<bar>)
         then PInf else Fin (of_int m * 2 powi (e - 52)))"
proof -
  have q_ne: "(q = 0) = False" and qa: "\<bar>q\<bar> = q" and qp: "(0 < q) = True"
    using assms by auto
  show ?thesis unfolding fl_def by (simp only: q_ne qa qp if_False if_True)
qed

lemma fl_ge_pow2:
  assumes k: "- 1074 \<le> k" and kq: "2 powi k \<le> q"
  shows "fl q = PInf \<or> (\<exists>r. fl q = Fin r \<and> 2 powi k \<le> r)"
proof -
  have "(0::rat) < 2 powi k" by simp
  then have q0: "0 < q" using kq by linarith
  define e0 where "e0 = ilog2 q"
  define e where "e = max e0 (- 1022)"
  define u where "u = (2::rat) powi (e - 52)"
  define m where "m = round_half_even (q / u)"
  define j where "j = (if - 1022 \<le> e0 then e0 else k)"
  have u0: "0 < u" by (simp add: u_def)
  have ke0: "k \<le> e0" unfolding e0_def using q0 kq by (rule ilog2_ge)
  have kj: "k \<le> j" using ke0 by (simp add: j_def)
  have jq: "2 powi j \<le> q"
    using kq ilog2_bounds[OF q0] by (simp add: j_def e0_def)
  have je: "0 \<le> j - (e - 52)" using k by (auto simp: j_def e_def)
  have "(2::rat) powi (j - (e - 52)) = 2 powi j / u"
    unfolding u_def by (rule power_int_diff) simp
  also have "\<dots> \<le> q / u" using jq u0 by (simp add: divide_right_mono)
  finally have "(2::rat) powi (j - (e - 52)) \<le> q / u" .
  moreover have "(2::rat) powi (j - (e - 52)) = of_int (2 ^ nat (j - (e - 52)))"
    using je by (simp add: power_int_def)
  ultimately have "of_int (2 ^ nat (j - (e - 52))) \<le> q / u" by simp
  then have "2 ^ nat (j - (e - 52)) \<le> m" unfolding m_def by (rule round_half_even_ge)
  then have "(of_int (2 ^ nat (j - (e - 52))) :: rat) \<le> of_int m" by (simp only: of_int_le_iff)
  then have "(2::rat) powi (j - (e - 52)) \<le> of_int m" using je by (simp add: power_int_def)
  then have "(2::rat) powi (j - (e - 52)) * u \<le> of_int m * u"
    using u0 by (simp add: mult_right_mono)
  moreover have "(2::rat) powi (j - (e - 52)) * u = 2 powi j"
    unfolding u_def by (simp flip: power_int_add)
  ultimately have "2 powi j \<le> of_int m * u" by simp
  moreover have "(2::rat) powi k \<le> 2 powi j" using kj by (intro power_int_increasing) auto
  ultimately have r: "2 powi k \<le> of_int m * u" by linarith
  have "fl q = (if 1023 < e \<or> (e = 1023 \<and> 9007199254740992 \<le> \<bar>m\<bar>) then PInf else Fin (of_int m * u))"
    unfolding e_def e0_def u_def m_def using fl_pos_unfold[OF q0] by (simp only: Let_def)
  then show ?thesis using r by auto
qed

lemma double_pos_ge:
  assumes "fl h = Fin h" "0 < h"
  shows "2 powi (- 1074) \<le> h"
proof (rule ccontr)
  assume "\<not> 2 powi (- 1074) \<le> h"
  then have lt: "h < 2 powi (- 1074)" by simp
  then have "ilog2 h < - 1074" using assms(2) by (intro ilog2_lt)
  then have e: "max (ilog2 \<bar>h\<bar>) (- 1022) = - 1022" using assms(2) by simp
  define u where "u = (2::rat) powi (- 1074)"
  define m where "m = round_half_even (h / u)"
  have u0: "0 < u" by (simp add: u_def)
  have x0: "0 < h / u" using assms(2) u0 by simp
  have x1: "h / u < 1" using lt u0 by (simp add: u_def)
  have fx: "\<lfloor>h / u\<rfloor> = 0" using x0 x1 by (simp add: floor_eq_iff)
  have m01: "m = 0 \<or> m = 1" by (simp add: m_def round_half_even_def Let_def fx)
  have "fl h = Fin (of_int m * u)"
    unfolding u_def m_def using fl_pos_unfold[OF assms(2)] e assms(2) by (simp add: Let_def)
  then have "h = of_int m * u" using assms(1) by simp
  then show False using m01 assms(2) lt by (auto simp: u_def)
qed


lemma fl_of_int_finite:
  assumes w0: "0 < w" and wb: "w < 2 ^ 1024 - 2 ^ 970"
  shows "\<exists>r. fl (of_int w) = Fin r \<and> 1 \<le> r"
proof -
  define q :: rat where "q = of_int w"
  have q1: "1 \<le> q" using w0 by (simp add: q_def)
  then have q0: "0 < q" by simp
  have "(of_int w :: rat) < of_int (2 ^ 1024 - 2 ^ 970)" using wb by (simp only: of_int_less_iff)
  then have qb: "q < 2 ^ 1024 - 2 ^ 970" by (simp add: q_def)
  define e where "e = max (ilog2 q) (- 1022)"
  define m where "m = round_half_even (q / 2 powi (e - 52))"
  have "(2::rat) powi 0 \<le> q" using q1 by simp
  then have "0 \<le> ilog2 q" using q0 by (intro ilog2_ge)
  then have e_eq: "e = ilog2 q" by (simp add: e_def)
  have "q < 2 powi 1024" using qb by simp
  then have "ilog2 q < 1024" using q0 by (intro ilog2_lt)
  then have e_le: "e \<le> 1023" using e_eq by simp
  have small: "\<bar>m\<bar> < 9007199254740992" if "e = 1023"
  proof -
    have u: "(2::rat) powi (e - 52) = 2 ^ 971" using that by simp
    have "q / 2 ^ 971 < (2 ^ 1024 - 2 ^ 970) / 2 ^ 971"
      using qb by (simp add: divide_strict_right_mono)
    also have "\<dots> = of_int 9007199254740992 - 1 / 2" by simp
    finally have "m \<le> 9007199254740992 - 1"
      unfolding m_def u by (rule round_half_even_below_half)
    moreover have "of_int 0 \<le> q / 2 powi (e - 52)" using q0 by simp
    then have "0 \<le> m" unfolding m_def by (rule round_half_even_ge)
    ultimately show ?thesis by simp
  qed
  have nov: "\<not> (1023 < e \<or> (e = 1023 \<and> 9007199254740992 \<le> \<bar>m\<bar>))"
    using e_le small by auto
  have "fl q = (if 1023 < e \<or> (e = 1023 \<and> 9007199254740992 \<le> \<bar>m\<bar>) then PInf
                else Fin (of_int m * 2 powi (e - 52)))"
    unfolding e_def m_def using fl_pos_unfold[OF q0] by (simp only: Let_def)
  then have fin: "fl q = Fin (of_int m * 2 powi (e - 52))" using nov by (simp only: if_False)
  have "fl q = PInf \<or> (\<exists>r. fl q = Fin r \<and> 2 powi 0 \<le> r)"
    by (rule fl_ge_pow2) (use q1 in simp_all)
  then show ?thesis using fin by (auto simp: q_def)
qed

lemma fl_overflow:
  assumes "2 powi 1024 \<le> q"
  shows "fl q = PInf"
proof -
  have "(0::rat) < 2 powi 1024" by simp
  then have q0: "0 < q" using assms by linarith
  have "1024 \<le> ilog2 q" using q0 assms by (rule ilog2_ge)
  then have e: "1023 < max (ilog2 q) (- 1022)" by simp
  show ?thesis using fl_pos_unfold[OF q0] e by (simp only: Let_def if_True simp_thms)
qed

lemma float_of_int_overflow: "2 ^ 1024 \<le> w \<Longrightarrow> float_of_int w = Inl OverflowError"
proof -
  assume "2 ^ 1024 \<le> w"
  then have "(of_int (2 ^ 1024) :: rat) \<le> of_int w" by (simp only: of_int_le_iff)
  then have "(2::rat) powi 1024 \<le> of_int w" by simp
  then have "fl (of_int w) = PInf" by (rule fl_overflow)
  then show ?thesis by (simp add: float_of_int_def)
qed

lemma round_half_even_above_half:
  assumes "of_int n - 1 / 2 \<le> x" and "even n"
  shows "n \<le> round_half_even x"
proof (cases "of_int n \<le> x")
  case True
  then show ?thesis by (rule round_half_even_ge)
next
  case False
  then have "x < of_int n" by simp
  moreover have "of_int (n - 1) \<le> x" using assms(1) by simp
  ultimately have f: "\<lfloor>x\<rfloor> = n - 1" by (simp add: floor_eq_iff)
  have d: "1 / 2 \<le> x - of_int \<lfloor>x\<rfloor>" using assms(1) f by simp
  have o: "odd (n - 1)" using assms(2) by simp
  show ?thesis using d o by (auto simp: round_half_even_def Let_def f)
qed

lemma fl_overflow_exact:
  assumes "2 ^ 1024 - 2 ^ 970 \<le> q"
  shows "fl q = PInf"
proof (cases "2 powi 1024 \<le> q")
  case True
  then show ?thesis by (rule fl_overflow)
next
  case False
  then have hi: "q < 2 powi 1024" by simp
  have "(2::rat) powi 1023 \<le> 2 ^ 1024 - 2 ^ 970" by simp
  then have lo: "2 powi 1023 \<le> q" using assms by linarith
  have "(0::rat) < 2 powi 1023" by simp
  then have q0: "0 < q" using lo by linarith
  have "1023 \<le> ilog2 q" using q0 lo by (rule ilog2_ge)
  moreover have "ilog2 q < 1024" using q0 hi by (rule ilog2_lt)
  ultimately have e: "max (ilog2 q) (- 1022) = 1023" by simp
  define m where "m = round_half_even (q / 2 powi (1023 - 52))"
  have "(2 ^ 1024 - 2 ^ 970) / 2 ^ 971 \<le> q / 2 ^ 971"
    using assms by (simp add: divide_right_mono)
  moreover have "((2 ^ 1024 - 2 ^ 970) / 2 ^ 971 :: rat) = of_int 9007199254740992 - 1 / 2" by simp
  ultimately have "of_int 9007199254740992 - 1 / 2 \<le> q / 2 powi (1023 - 52)" by simp
  then have "9007199254740992 \<le> m" unfolding m_def by (rule round_half_even_above_half) simp
  then have big: "9007199254740992 \<le> \<bar>m\<bar>" by simp
  show ?thesis using fl_pos_unfold[OF q0] big unfolding e m_def
    by (simp only: Let_def simp_thms if_True)
qed

lemma float_of_int_overflow_iff:
  assumes "0 < w"
  shows "float_of_int w = Inl OverflowError \<longleftrightarrow> 2 ^ 1024 - 2 ^ 970 \<le> w"
proof
  assume a: "float_of_int w = Inl OverflowError"
  show "2 ^ 1024 - 2 ^ 970 \<le> w"
  proof (rule ccontr)
    assume "\<not> 2 ^ 1024 - 2 ^ 970 \<le> w"
    then have "w < 2 ^ 1024 - 2 ^ 970" by simp
    from fl_of_int_finite[OF assms this] a show False by (auto simp: float_of_int_def)
  qed
next
  assume "2 ^ 1024 - 2 ^ 970 \<le> w"
  then have "(of_int (2 ^ 1024 - 2 ^ 970) :: rat) \<le> of_int w" by (simp only: of_int_le_iff)
  then have "(2 ^ 1024 - 2 ^ 970 :: rat) \<le> of_int w" by simp
  then have "fl (of_int w) = PInf" by (rule fl_overflow_exact)
  then show "float_of_int w = Inl OverflowError" by (simp add: float_of_int_def)
qed

section \<open>Facts about the pricing engine\<close>

lemma float_of_int_valid:
  assumes "0 < w" "w < 2 ^ 1024 - 2 ^ 970"
  shows "\<exists>r. 1 \<le> r \<and> fl (of_int w) = Fin r \<and> float_of_int w = Inr (Fin r)"
proof -
  from fl_of_int_finite[OF assms] obtain r where "fl (of_int w) = Fin r" "1 \<le> r" by blast
  then show ?thesis by (auto simp: float_of_int_def)
qed

lemma billable_hours_nonzero:
  assumes r: "1 \<le> r" and h: "float_gt_int h 0" and d: "is_double h"
  shows "\<not> float_eq_int (float_mul (Fin r) h) 0"
proof (cases h)
  case (Fin q)
  with h d have q0: "0 < q" and fq: "fl q = Fin q" by (simp_all add: is_double_def)
  have "2 powi (- 1074) \<le> q" using fq q0 by (rule double_pos_ge)
  also have "q = 1 * q" by simp
  also have "\<dots> \<le> r * q" using r q0 by (intro mult_right_mono) simp_all
  finally have "2 powi (- 1074) \<le> r * q" .
  with fl_ge_pow2[of "- 1074" "r * q"]
  have "fl (r * q) = PInf \<or> (\<exists>x. fl (r * q) = Fin x \<and> 2 powi (- 1074) \<le> x)" by simp
  moreover have "(0::rat) < 2 powi (- 1074)" by simp
  ultimately show ?thesis using Fin by fastforce
next
  case PInf
  then show ?thesis using r by simp
next
  case NInf
  then show ?thesis using h by simp
next
  case NaN
  then show ?thesis using h by simp
qed

lemma float_gt_not_le: "float_gt_int h 0 \<Longrightarrow> \<not> float_le_int h 0"
  by (cases h) simp_all

lemma calc_hourwages_try_valid:
  assumes w0: "0 < w" and wb: "w < 2 ^ 1024 - 2 ^ 970"
    and h: "float_gt_int h 0" and d: "is_double h"
  shows "calc_hourwages_try w c o' h m v chef =
     (let s = spec_self_cost_rate w c o' h;
          n = spec_net_rate s m;
          g = spec_gross_rate n v;
          df = float_sub n s;
          k = spec_redistribution_amount df m
      in Inr (py_round2 s, py_round2 n,
              py_round2 (if chef then float_sub g k else g),
              py_round2 (if chef then float_sub df k else df),
              py_round2 (if chef then k else Fin 0)))"
proof -
  from float_of_int_valid[OF w0 wb] obtain r
    where r: "1 \<le> r" and fr: "fl (of_int w) = Fin r" and fi: "float_of_int w = Inr (Fin r)"
    by blast
  have nz: "\<not> float_eq_int (float_mul (Fin r) h) 0"
    using r h d by (rule billable_hours_nonzero)
  have nle: "\<not> float_le_int h 0" using h by (rule float_gt_not_le)
  have nw: "\<not> w \<le> 0" using w0 by simp
  show ?thesis
    unfolding calc_hourwages_try_def int_mul_float_def float_truediv_def
      spec_self_cost_rate_def spec_net_rate_def spec_gross_rate_def
      spec_redistribution_amount_def fi fr
    using nz nle nw by (simp add: Let_def)
qed

lemma calc_hourwages_try_overflow:
  assumes "2 ^ 1024 \<le> w" and "\<not> float_le_int h 0"
  shows "calc_hourwages_try w c o' h m v chef = Inl OverflowError"
proof -
  have "(0::int) < 2 ^ 1024" by simp
  then have "\<not> w \<le> 0" using assms(1) by linarith
  then show ?thesis
    using assms(2) float_of_int_overflow[OF assms(1)]
    by (simp add: calc_hourwages_try_def int_mul_float_def)
qed

lemma round_half_even_zero: "round_half_even 0 = 0"
  by (simp add: round_half_even_def)

lemma fl_zero: "fl 0 = Fin 0"
  by (simp add: fl_def)

text \<open>The example of the specification, with and without redistribution.\<close>

lemma calc_hourwages_example_disabled:
  "calc_hourwages 8 (Fin 60000) (Fin 230000) (Fin 1512) (fl (15 / 100)) (fl (19 / 100)) False =
     (fl (5870 / 100), fl (6750 / 100), fl (8033 / 100), fl (880 / 100), Fin 0)"
  by code_simp

lemma calc_hourwages_example_enabled:
  "calc_hourwages 8 (Fin 60000) (Fin 230000) (Fin 1512) (fl (15 / 100)) (fl (19 / 100)) True =
     (fl (5870 / 100), fl (6750 / 100), fl (7953 / 100), fl (801 / 100), fl (79 / 100))"
  by code_simp

section \<open>Facts about the store\<close>

lemma save_scenario_cases:
  assumes "save_scenario name w c o' h m v description chef now fault db = (sid, db')"
  shows "(sid = - 1 \<and> db' = db) \<or>
         (sid = sqlite_sequence db + 1 \<and> sqlite_sequence db' = sid \<and>
          (\<exists>r. scenarios db' = scenarios db @ [r] \<and> sc_id r = sid \<and> sc_name r = name \<and>
               sc_description r = description \<and> sc_created_at r = now \<and>
               stored_inputs r = (w, c, o', h, m, v) \<and>
               stored_results r = calc_hourwages w c o' h m v chef))"
  using assms
  by (auto simp: save_scenario_def sqlite_insert_def stored_inputs_def stored_results_def
      split: prod.splits if_splits)













lemma get_all_scenarios_sorted:
  "sorted (map (\<lambda>r. - sc_created_at r) (get_all_scenarios fault db))"
  by (simp add: get_all_scenarios_def)

lemma get_all_scenarios_length:
  "length (get_all_scenarios False db) = length (scenarios db)"
  by (simp add: get_all_scenarios_def)

lemma insort_key_last:
  "\<forall>y\<in>set ys. f y < f x \<Longrightarrow> insort_key f x ys = ys @ [x]"
  by (induction ys) auto

lemma sort_key_rev:
  "sorted_wrt (\<lambda>a b. f b < f a) xs \<Longrightarrow> sort_key f xs = rev xs"
proof (induction xs)
  case Nil
  then show ?case by simp
next
  case (Cons x xs)
  then have "\<forall>y\<in>set (rev xs). f y < f x" by simp
  then have "insort_key f x (rev xs) = rev xs @ [x]" by (rule insort_key_last)
  with Cons show ?case by simp
qed

lemma get_all_scenarios_newest_first:
  assumes "sorted_wrt (\<lambda>a b. sc_created_at a < sc_created_at b) (scenarios db)"
  shows "get_all_scenarios False db = rev (scenarios db)"
proof -
  have "sorted_wrt (\<lambda>a b. - sc_created_at b < - sc_created_at a) (scenarios db)"
    using assms by simp
  then show ?thesis unfolding get_all_scenarios_def by (simp add: sort_key_rev)
qed

text \<open>Every stored row holds the results of \<^verbatim>\<open>calc_hourwages\<close> for its own inputs.\<close>

lemma stored_results_apply_op:
  assumes "\<forall>r\<in>set (scenarios db). \<exists>chef. stored_results r =
             calc_hourwages (sc_worker_amount r) (sc_individual_costs r) (sc_overhead_costs r)
               (sc_hours r) (sc_earning_percentage r) (sc_vat_percentage r) chef"
  shows "\<forall>r\<in>set (scenarios (apply_op x db)). \<exists>chef. stored_results r =
             calc_hourwages (sc_worker_amount r) (sc_individual_costs r) (sc_overhead_costs r)
               (sc_hours r) (sc_earning_percentage r) (sc_vat_percentage r) chef"
proof (cases x)
  case (Save name w c o' h m v description chef now fault)
  obtain i db' where s: "save_scenario name w c o' h m v description chef now fault db = (i, db')"
    by (cases "save_scenario name w c o' h m v description chef now fault db")
  from save_scenario_cases[OF s] assms show ?thesis
    unfolding Save by (auto simp: s stored_inputs_def)
next
  case (Delete fault scenario_id)
  with assms show ?thesis by (auto simp: delete_scenario_def)
qed

lemma stored_results_run_ops:
  assumes "\<forall>r\<in>set (scenarios db). \<exists>chef. stored_results r =
             calc_hourwages (sc_worker_amount r) (sc_individual_costs r) (sc_overhead_costs r)
               (sc_hours r) (sc_earning_percentage r) (sc_vat_percentage r) chef"
  shows "\<forall>r\<in>set (scenarios (run_ops xs db)). \<exists>chef. stored_results r =
             calc_hourwages (sc_worker_amount r) (sc_individual_costs r) (sc_overhead_costs r)
               (sc_hours r) (sc_earning_percentage r) (sc_vat_percentage r) chef"
  using assms
proof (induction xs arbitrary: db)
  case Nil
  then show ?case by simp
next
  case (Cons x xs)
  show ?case using Cons.IH[OF stored_results_apply_op[OF Cons.prems, of x]] by simp
qed

lemma stored_results_reachable:
  assumes "r \<in> set (scenarios (run_ops xs empty_db))"
  shows "\<exists>chef. stored_results r =
           calc_hourwages (sc_worker_amount r) (sc_individual_costs r) (sc_overhead_costs r)
             (sc_hours r) (sc_earning_percentage r) (sc_vat_percentage r) chef"
proof -
  have "\<forall>r\<in>set (scenarios empty_db). \<exists>chef. stored_results r =
             calc_hourwages (sc_worker_amount r) (sc_individual_costs r) (sc_overhead_costs r)
               (sc_hours r) (sc_earning_percentage r) (sc_vat_percentage r) chef"
    by (simp add: empty_db_def)
  from stored_results_run_ops[OF this, of xs] assms show ?thesis by blast
qed

text \<open>When the insert raises.\<close>

lemma sqlite_insert_raises_iff:
  "(\<exists>e. sqlite_insert fault row db = Inl e) \<longleftrightarrow>
     fault \<or> \<not> is_int64 (sc_worker_amount row) \<or>
     NaN \<in> {sc_individual_costs row, sc_overhead_costs row, sc_hours row,
            sc_earning_percentage row, sc_vat_percentage row, sc_selbstkostensatz row,
            sc_netto row, sc_brutto row, sc_netto_selbstkosten_diff row,
            sc_geld_fuer_chefchen row} \<or>
     \<not> is_int64 (sc_id row)"
  by (auto simp: sqlite_insert_def)

section \<open>Claims about the pricing engine\<close>

text \<open>
  C1, as amended. For every input with \<open>worker_count > 0\<close> small enough to be converted to
  a float (below \<open>2\<^sup>1\<^sup>0\<^sup>2\<^sup>4 - 2\<^sup>9\<^sup>7\<^sup>0\<close>) and a float \<open>billable_hours_per_worker > 0\<close>,
  \<^verbatim>\<open>calc_hourwages\<close> with redistribution disabled returns the self-cost rate
  \<open>(worker_count \<times> cost_per_worker + overhead_cost) / (worker_count \<times> hours)\<close>, the net rate
  \<open>self_cost_rate \<times> (1 + margin)\<close>, the gross rate \<open>net_rate \<times> (1 + vat)\<close> and the
  difference \<open>net_rate - self_cost_rate\<close>, each rounded to two decimals once, at the end,
  and the redistribution amount \<open>0\<close>.
\<close>

theorem calc_hourwages_rates:
  assumes "0 < worker_count" and "worker_count < 2 ^ 1024 - 2 ^ 970"
    and "float_gt_int billable_hours_per_worker 0" and "is_double billable_hours_per_worker"
  shows "calc_hourwages worker_count cost_per_worker overhead_cost billable_hours_per_worker
           margin_fraction vat_fraction False =
     (let self_cost_rate =
            spec_self_cost_rate worker_count cost_per_worker overhead_cost
              billable_hours_per_worker;
          net_rate = spec_net_rate self_cost_rate margin_fraction
      in (py_round2 self_cost_rate, py_round2 net_rate,
          py_round2 (spec_gross_rate net_rate vat_fraction),
          py_round2 (float_sub net_rate self_cost_rate), Fin 0))"
  unfolding calc_hourwages_def calc_hourwages_try_valid[OF assms]
  by (simp add: Let_def round_half_even_zero fl_zero)

theorem calc_hourwages_rates_witness:
  "0 < (8::int) \<and> (8::int) < 2 ^ 1024 - 2 ^ 970 \<and> float_gt_int (Fin 1512) 0 \<and>
   is_double (Fin 1512) \<and>
   calc_hourwages 8 (Fin 60000) (Fin 230000) (Fin 1512) (fl (15 / 100)) (fl (19 / 100)) False =
     (let self_cost_rate = spec_self_cost_rate 8 (Fin 60000) (Fin 230000) (Fin 1512);
          net_rate = spec_net_rate self_cost_rate (fl (15 / 100))
      in (py_round2 self_cost_rate, py_round2 net_rate,
          py_round2 (spec_gross_rate net_rate (fl (19 / 100))),
          py_round2 (float_sub net_rate self_cost_rate), Fin 0))"
proof -
  have h1: "0 < (8::int)" by simp
  have h2: "(8::int) < 2 ^ 1024 - 2 ^ 970" by simp
  have h3: "float_gt_int (Fin 1512) 0" by simp
  have h4: "is_double (Fin 1512)" by code_simp
  from calc_hourwages_rates[OF h1 h2 h3 h4] h1 h2 h3 h4 show ?thesis by blast
qed

text \<open>
  C1 fails as stated: with \<open>2\<^sup>1\<^sup>0\<^sup>2\<^sup>4\<close> workers, a cost of 1 and one hour each, the
  conversion of the worker count to a float raises \<^verbatim>\<open>OverflowError\<close> and the function
  returns five zeros, where the self-cost rate \<open>(2\<^sup>1\<^sup>0\<^sup>2\<^sup>4 \<times> 1 + 0) / (2\<^sup>1\<^sup>0\<^sup>2\<^sup>4 \<times> 1)\<close>
  is 1.
\<close>

theorem calc_hourwages_rates_counterexample:
  "float_gt_int (Fin 1) 0 \<and> is_double (Fin 1) \<and>
   calc_hourwages_try (2 ^ 1024) (Fin 1) (Fin 0) (Fin 1) (Fin 0) (Fin 0) False = Inl OverflowError \<and>
   calc_hourwages (2 ^ 1024) (Fin 1) (Fin 0) (Fin 1) (Fin 0) (Fin 0) False =
     (Fin 0, Fin 0, Fin 0, Fin 0, Fin 0) \<and>
   py_round2 (spec_self_cost_rate (2 ^ 1024) (Fin 1) (Fin 0) (Fin 1)) \<noteq> Fin 0 \<and>
   py_round2 (Fin ((2 ^ 1024 * 1 + 0) / (2 ^ 1024 * 1))) = Fin 1"
proof -
  have g: "float_gt_int (Fin 1) 0" by simp
  have d: "is_double (Fin 1)" by code_simp
  have t: "calc_hourwages_try (2 ^ 1024) (Fin 1) (Fin 0) (Fin 1) (Fin 0) (Fin 0) False =
             Inl OverflowError"
    by (rule calc_hourwages_try_overflow) simp_all
  have c: "calc_hourwages (2 ^ 1024) (Fin 1) (Fin 0) (Fin 1) (Fin 0) (Fin 0) False =
             (Fin 0, Fin 0, Fin 0, Fin 0, Fin 0)"
    unfolding calc_hourwages_def t by simp
  have inf: "fl (of_int (2 ^ 1024)) = PInf" by (rule fl_overflow) simp
  have "spec_self_cost_rate (2 ^ 1024) (Fin 1) (Fin 0) (Fin 1) = NaN"
    unfolding spec_self_cost_rate_def inf by simp
  then have s: "py_round2 (spec_self_cost_rate (2 ^ 1024) (Fin 1) (Fin 0) (Fin 1)) \<noteq> Fin 0"
    by simp
  have one: "py_round2 (Fin 1) = Fin 1" by code_simp
  have "((2 ^ 1024 * 1 + 0) / (2 ^ 1024 * 1) :: rat) = 1" by simp
  then have q: "py_round2 (Fin ((2 ^ 1024 * 1 + 0) / (2 ^ 1024 * 1))) = Fin 1"
    using one by (simp only:)
  from g d t c s q show ?thesis by blast
qed

text \<open>
  C2. With no workers, or with no billable hours, the \<^verbatim>\<open>try\<close> block raises
  \<^verbatim>\<open>ValueError\<close>, as the docstring announces, but the handler of the same function
  turns it into five zeros: the result a caller gets for the accepted input of one worker,
  no costs and one hour.
\<close>

theorem calc_hourwages_swallows_invalid_input:
  "calc_hourwages_try 0 (Fin 60000) (Fin 230000) (Fin 1512) (fl (15 / 100)) (fl (19 / 100)) False =
     Inl ValueError \<and>
   calc_hourwages 0 (Fin 60000) (Fin 230000) (Fin 1512) (fl (15 / 100)) (fl (19 / 100)) False =
     (Fin 0, Fin 0, Fin 0, Fin 0, Fin 0) \<and>
   calc_hourwages_try 8 (Fin 60000) (Fin 230000) (Fin 0) (fl (15 / 100)) (fl (19 / 100)) False =
     Inl ValueError \<and>
   calc_hourwages 8 (Fin 60000) (Fin 230000) (Fin 0) (fl (15 / 100)) (fl (19 / 100)) False =
     (Fin 0, Fin 0, Fin 0, Fin 0, Fin 0) \<and>
   calc_hourwages_try 1 (Fin 0) (Fin 0) (Fin 1) (Fin 0) (Fin 0) False =
     Inr (Fin 0, Fin 0, Fin 0, Fin 0, Fin 0)"
  by code_simp

text \<open>
  C4, as amended. For every valid input (a positive worker count that converts to a float, a
  float of positive hours), with \<open>diff = net_rate - self_cost_rate\<close> and
  \<open>redistribution_amount = diff \<times> (0.6 \<times> margin_fraction)\<close> computed from the \<open>diff\<close> before
  anything is subtracted from it: with redistribution enabled the function returns the
  rounded \<open>gross_rate - redistribution_amount\<close>, the rounded
  \<open>diff - redistribution_amount\<close> and the rounded \<open>redistribution_amount\<close>, where
  \<open>gross_rate\<close> is the unrounded gross rate of the same input with redistribution disabled.
  The two equations hold of the values before the one rounding, not of the returned ones.
\<close>


theorem calc_hourwages_redistribution:
  assumes "0 < worker_count" and "worker_count < 2 ^ 1024 - 2 ^ 970"
    and "float_gt_int billable_hours_per_worker 0" and "is_double billable_hours_per_worker"
  shows "(let self_cost_rate =
            spec_self_cost_rate worker_count cost_per_worker overhead_cost
              billable_hours_per_worker;
          net_rate = spec_net_rate self_cost_rate margin_fraction;
          gross_rate = spec_gross_rate net_rate vat_fraction;
          diff = float_sub net_rate self_cost_rate;
          redistribution_amount = spec_redistribution_amount diff margin_fraction
      in calc_hourwages worker_count cost_per_worker overhead_cost billable_hours_per_worker
           margin_fraction vat_fraction True =
           (py_round2 self_cost_rate, py_round2 net_rate,
            py_round2 (float_sub gross_rate redistribution_amount),
            py_round2 (float_sub diff redistribution_amount),
            py_round2 redistribution_amount) \<and>
         calc_hourwages worker_count cost_per_worker overhead_cost billable_hours_per_worker
           margin_fraction vat_fraction False =
           (py_round2 self_cost_rate, py_round2 net_rate, py_round2 gross_rate,
            py_round2 diff, Fin 0))"
  unfolding calc_hourwages_def calc_hourwages_try_valid[OF assms]
  by (simp add: Let_def round_half_even_zero fl_zero)

theorem calc_hourwages_redistribution_witness:
  "0 < (8::int) \<and> (8::int) < 2 ^ 1024 - 2 ^ 970 \<and> float_gt_int (Fin 1512) 0 \<and>
   is_double (Fin 1512) \<and>
   (let self_cost_rate = spec_self_cost_rate 8 (Fin 60000) (Fin 230000) (Fin 1512);
        net_rate = spec_net_rate self_cost_rate (fl (15 / 100));
        gross_rate = spec_gross_rate net_rate (fl (19 / 100));
        diff = float_sub net_rate self_cost_rate;
        redistribution_amount = spec_redistribution_amount diff (fl (15 / 100))
    in calc_hourwages 8 (Fin 60000) (Fin 230000) (Fin 1512) (fl (15 / 100)) (fl (19 / 100)) True =
         (py_round2 self_cost_rate, py_round2 net_rate,
          py_round2 (float_sub gross_rate redistribution_amount),
          py_round2 (float_sub diff redistribution_amount),
          py_round2 redistribution_amount) \<and>
       calc_hourwages 8 (Fin 60000) (Fin 230000) (Fin 1512) (fl (15 / 100)) (fl (19 / 100)) False =
         (py_round2 self_cost_rate, py_round2 net_rate, py_round2 gross_rate,
          py_round2 diff, Fin 0))"
proof -
  have h1: "0 < (8::int)" by simp
  have h2: "(8::int) < 2 ^ 1024 - 2 ^ 970" by simp
  have h3: "float_gt_int (Fin 1512) 0" by simp
  have h4: "is_double (Fin 1512)" by code_simp
  from calc_hourwages_redistribution[OF h1 h2 h3 h4] h1 h2 h3 h4 show ?thesis by blast
qed

text \<open>
  C4 fails as stated, of the returned values: for the example of the specification the
  function returns the gross rate 79.53 with redistribution, 80.33 without, and the
  redistribution amount 0.79; \<open>80.33 - 0.79\<close> is not 79.53, and
  \<open>(67.5 - 58.7) \<times> (0.6 \<times> 0.15)\<close> is not 0.79.
\<close>

theorem calc_hourwages_redistribution_counterexample:
  "calc_hourwages 8 (Fin 60000) (Fin 230000) (Fin 1512) (fl (15 / 100)) (fl (19 / 100)) True =
     (fl (5870 / 100), fl (6750 / 100), fl (7953 / 100), fl (801 / 100), fl (79 / 100)) \<and>
   calc_hourwages 8 (Fin 60000) (Fin 230000) (Fin 1512) (fl (15 / 100)) (fl (19 / 100)) False =
     (fl (5870 / 100), fl (6750 / 100), fl (8033 / 100), fl (880 / 100), Fin 0) \<and>
   float_sub (fl (8033 / 100)) (fl (79 / 100)) \<noteq> fl (7953 / 100) \<and>
   float_mul (float_sub (fl (6750 / 100)) (fl (5870 / 100))) (float_mul (fl (6 / 10)) (fl (15 / 100)))
     \<noteq> fl (79 / 100)"
proof -
  have a: "float_sub (fl (8033 / 100)) (fl (79 / 100)) \<noteq> fl (7953 / 100)" by code_simp
  have b: "float_mul (float_sub (fl (6750 / 100)) (fl (5870 / 100)))
             (float_mul (fl (6 / 10)) (fl (15 / 100))) \<noteq> fl (79 / 100)"
    by code_simp
  from calc_hourwages_example_enabled calc_hourwages_example_disabled a b show ?thesis by blast
qed

text \<open>
  C5, as amended. \<^verbatim>\<open>calc_hourwages(8, 60000, 230000, 1512, 0.15, 0.19, False)\<close> returns
  the self-cost rate 58.7, the net rate 67.5, the gross rate 80.33, the difference 8.8 and
  the redistribution amount 0.0.
\<close>

theorem calc_hourwages_example:
  "calc_hourwages 8 (Fin 60000) (Fin 230000) (Fin 1512) (fl (15 / 100)) (fl (19 / 100)) False =
     (fl (5870 / 100), fl (6750 / 100), fl (8033 / 100), fl (880 / 100), Fin 0)"
  by (rule calc_hourwages_example_disabled)


text \<open>
  C5 fails as stated: none of the three rates is the one the specification gives
  (60.19, 69.22 and 82.37).
\<close>

theorem calc_hourwages_example_counterexample:
  "fst (calc_hourwages 8 (Fin 60000) (Fin 230000) (Fin 1512) (fl (15 / 100)) (fl (19 / 100)) False)
     \<noteq> fl (6019 / 100) \<and>
   fst (snd (calc_hourwages 8 (Fin 60000) (Fin 230000) (Fin 1512) (fl (15 / 100)) (fl (19 / 100))
               False))
     \<noteq> fl (6922 / 100) \<and>
   fst (snd (snd (calc_hourwages 8 (Fin 60000) (Fin 230000) (Fin 1512) (fl (15 / 100))
                    (fl (19 / 100)) False)))
     \<noteq> fl (8237 / 100)"
  unfolding calc_hourwages_example_disabled fst_conv snd_conv by code_simp




section \<open>Claims about the store\<close>






text \<open>
  C7. Two scenarios saved within the same second are listed oldest first: their
  \<^verbatim>\<open>created_at\<close> are equal and \<^verbatim>\<open>ORDER BY created_at DESC\<close> leaves them in rowid
  order. Saved in different seconds they are listed newest first.
\<close>

theorem get_all_scenarios_same_second:
  "map sc_name (get_all_scenarios False (run_ops
       [Save ''first'' 1 (Fin 1) (Fin 0) (Fin 1) (Fin 0) (Fin 0) [] False 0 False,
        Save ''second'' 1 (Fin 1) (Fin 0) (Fin 1) (Fin 0) (Fin 0) [] False 0 False] empty_db)) =
     [''first'', ''second''] \<and>
   map sc_name (get_all_scenarios False (run_ops
       [Save ''first'' 1 (Fin 1) (Fin 0) (Fin 1) (Fin 0) (Fin 0) [] False 0 False,
        Save ''second'' 1 (Fin 1) (Fin 0) (Fin 1) (Fin 0) (Fin 0) [] False 1 False] empty_db)) =
     [''second'', ''first'']"
  by code_simp





end
